theory Spec2Isabelle
  imports Complex_Main "HOL-Library.Log_Nat"
begin

section \<open>The oracle feeder's voting loop (feeder/src/index.ts)\<close>

text \<open>
  The development embeds \<^verbatim>\<open>getPrices\<close>, \<^verbatim>\<open>queryAccount\<close>, \<^verbatim>\<open>waitTx\<close> and the body of
  the \<^verbatim>\<open>while (true)\<close> loop of \<^verbatim>\<open>vote\<close>. Everything the loop reads from outside (HTTP
  answers, the clock, \<^verbatim>\<open>Math.random\<close>, the signer) is an explicit input of one iteration;
  the three mutable variables \<^verbatim>\<open>prevotePrices\<close>, \<^verbatim>\<open>prevoteSalts\<close> and \<^verbatim>\<open>prevotePeriod\<close>
  are an explicit state.

  Boundaries of the model:
  \<^item> JavaScript numbers that the code obtains with \<^verbatim>\<open>parseInt\<close> or \<^verbatim>\<open>Number\<close> from decimal
    strings are integers (\<open>int\<close>); \<^verbatim>\<open>NaN\<close> and non-integral values are not represented.
    \<^verbatim>\<open>Math.floor(a / b)\<close> is \<open>a div b\<close> and \<^verbatim>\<open>a % b\<close> is \<open>js_rem a b\<close>, which are the same
    numbers for \<open>b \<noteq> 0\<close>; the vote period of the chain is positive, and theorems that
    depend on the quotient assume so.
  \<^item> The one floating-point computation of the loop, \<^verbatim>\<open>Math.ceil(gas * 0.015)\<close>, is
    evaluated in binary64 with rounding to nearest, ties to even; all other numbers of the
    loop are integers far below \<open>2 ^ 53\<close>, where binary64 is exact.
  \<^item> Strings are byte strings and \<^verbatim>\<open>toLowerCase\<close> acts on ASCII letters.
  \<^item> The three objects keyed by currency are created as \<^verbatim>\<open>{}\<close> and inherit the members of
    \<^verbatim>\<open>Object.prototype\<close>; reading and writing them is modelled with that inheritance.
  \<^item> The modules \<^verbatim>\<open>./msg\<close>, \<^verbatim>\<open>./wallet\<close> and \<^verbatim>\<open>./keystore\<close> are not part of the sources at
    hand: messages and the vote hash are kept as constructor terms of their arguments, and
    the signature is an input.
\<close>

subsection \<open>Strings and numbers\<close>

definition lower_char :: "char \<Rightarrow> char" where
  "lower_char c =
     (let n = (of_char c :: nat) in if 65 \<le> n \<and> n \<le> 90 then char_of (n + 32) else c)"

definition toLowerCase :: "string \<Rightarrow> string" where
  "toLowerCase s = map lower_char s"

text \<open>\<^verbatim>\<open>s.split(',')\<close>: always at least one piece, empty pieces are kept.\<close>

fun split_str :: "char \<Rightarrow> string \<Rightarrow> string list" where
  "split_str sep [] = [[]]"
| "split_str sep (x # xs) =
     (if x = sep then [] # split_str sep xs
      else (case split_str sep xs of
              [] \<Rightarrow> [[x]]
            | w # ws \<Rightarrow> (x # w) # ws))"

text \<open>The remainder operator \<^verbatim>\<open>%\<close> truncates: the result has the sign of the dividend.\<close>

definition js_rem :: "int \<Rightarrow> int \<Rightarrow> int" where
  "js_rem a b = sgn a * (\<bar>a\<bar> mod \<bar>b\<bar>)"

text \<open>Truthiness of a value that is \<^verbatim>\<open>undefined\<close> (\<open>None\<close>) or a number.\<close>

definition truthy :: "int option \<Rightarrow> bool" where
  "truthy v = (case v of None \<Rightarrow> False | Some n \<Rightarrow> n \<noteq> 0)"

datatype thrown = skip | TypeError | Error string | RequestFailed | SignFailed

definition secTimeout :: nat where
  "secTimeout = 45"

subsection \<open>Data\<close>

record price_obs =
  currency :: string
  price :: string

text \<open>
  The field \<^verbatim>\<open>created_at\<close> of a source's answer: not a string at all, a string that
  \<^verbatim>\<open>new Date\<close> cannot parse (its \<^verbatim>\<open>getTime()\<close> is \<^verbatim>\<open>NaN\<close>), or a time in milliseconds.
\<close>

datatype created_at_field = NotAString | Unparseable | Timestamp int

record price_response =
  created_at :: created_at_field
  prices :: "price_obs list option"  \<comment> \<open>\<open>None\<close>: not an array\<close>

text \<open>The requests to the sources, in the order in which they settle.\<close>

datatype settlement = Rejected | Fulfilled price_response

datatype json_field = JString string | JNumber int | JMissing

datatype account_response =
  AccountRequestFailed
| AccountNoValue
| AccountValue json_field json_field  \<comment> \<open>\<^verbatim>\<open>account_number\<close>, \<^verbatim>\<open>sequence\<close>\<close>

record account =
  account_number :: string
  sequence :: string

text \<open>
  An object created as \<^verbatim>\<open>{}\<close> with string values: its own properties are a map, and a key
  that is no own property is looked up in \<^verbatim>\<open>Object.prototype\<close>. Reading \<^verbatim>\<open>obj[k]\<close> gives the
  own value, the inherited member of that name (a function, or the prototype itself for
  \<^verbatim>\<open>__proto__\<close>), or \<^verbatim>\<open>undefined\<close>. Writing \<^verbatim>\<open>obj[k] = v\<close> creates or replaces an own
  property, except for \<^verbatim>\<open>__proto__\<close>, whose inherited setter ignores a string.
  \<^verbatim>\<open>Object.assign\<close> writes every own property of the source to the target in that way.
\<close>

definition object_prototype_members :: "string list" where
  "object_prototype_members =
     [''constructor'', ''__defineGetter__'', ''__defineSetter__'', ''hasOwnProperty'',
      ''__lookupGetter__'', ''__lookupSetter__'', ''isPrototypeOf'', ''propertyIsEnumerable'',
      ''toString'', ''valueOf'', ''__proto__'', ''toLocaleString'']"

datatype looked_up = Own string | Inherited string | Undefined

definition js_get :: "(string \<rightharpoonup> string) \<Rightarrow> string \<Rightarrow> looked_up" where
  "js_get obj k =
     (case obj k of
        Some v \<Rightarrow> Own v
      | None \<Rightarrow> if k \<in> set object_prototype_members then Inherited k else Undefined)"

definition js_set :: "(string \<rightharpoonup> string) \<Rightarrow> string \<Rightarrow> string \<Rightarrow> (string \<rightharpoonup> string)" where
  "js_set obj k v = (if k = ''__proto__'' then obj else obj(k \<mapsto> v))"

definition object_assign ::
  "(string \<rightharpoonup> string) \<Rightarrow> (string \<rightharpoonup> string) \<Rightarrow> (string \<rightharpoonup> string)" where
  "object_assign target source =
     (\<lambda>k. if k = ''__proto__'' then target k else (target ++ source) k)"

datatype vote_hash = generateVoteHash looked_up string string string
  \<comment> \<open>salt, price, denom, validator\<close>

datatype msg =
  generateVoteMsg looked_up looked_up string string string
    \<comment> \<open>exchange rate, salt, denom, feeder, validator\<close>
| generatePrevoteMsg vote_hash string string string
    \<comment> \<open>hash, denom, feeder, validator\<close>

text \<open>The amount and the gas of a fee are the numbers, before \<^verbatim>\<open>toString()\<close>.\<close>

record fees =
  amount :: int
  fee_denom :: string
  gas :: int

record std_tx =
  msgs :: "msg list"
  fee :: fees
  memo :: string

record broadcast_req =
  tx :: std_tx
  signature :: string
  mode :: string

record broadcast_data =
  txhash :: string
  code :: "int option"

text \<open>
  What \<^verbatim>\<open>ax.post\<close> does in \<^verbatim>\<open>broadcast\<close>: it rejects with an axios error that carries no
  \<^verbatim>\<open>response\<close> (the request never got an answer), it rejects with an answer attached (or
  with something that is no axios error), or it resolves with the body.
\<close>

datatype broadcast_response =
  PostNoResponse
| PostRejected
| PostData "broadcast_data option"  \<comment> \<open>\<open>None\<close>: an empty body\<close>

record tx_query_data =
  tx_code :: "int option"
  height :: int

text \<open>
  One poll of \<^verbatim>\<open>queryTx\<close>: the request fails with no \<^verbatim>\<open>response\<close>, it fails with an HTTP
  status (404 while the transaction is not in a block; an empty body counts here too), or
  it gives the transaction.
\<close>

datatype tx_poll = TxNoResponse | TxStatus nat | TxData tx_query_data

text \<open>
  \<^verbatim>\<open>queryLatestBlock\<close> and the reading of the height: the request fails, the answer has
  no \<^verbatim>\<open>block.header\<close>, or \<^verbatim>\<open>parseInt\<close> gives the height.
\<close>

datatype block_response = BlockRequestFailed | BlockMalformed | BlockHeight int

record state =
  prevotePrices :: "string \<rightharpoonup> string"
  prevoteSalts :: "string \<rightharpoonup> string"
  prevotePeriod :: "int option"

record config =
  denoms :: string
  validator :: "string list option"
  terraAddress :: string
  terraValAddress :: string
  oracleVotePeriod :: int

record tick_env =
  latestBlock :: block_response
  now :: int  \<comment> \<open>\<^verbatim>\<open>Date.now()\<close> in \<^verbatim>\<open>getPrices\<close>, milliseconds\<close>
  settled :: "settlement list"
  accountRes :: account_response
  mathRandom :: "nat \<Rightarrow> string"  \<comment> \<open>the salt of the \<open>k\<close>-th draw\<close>
  signRes :: "string option"  \<comment> \<open>\<open>None\<close>: \<^verbatim>\<open>wallet.sign\<close> throws\<close>
  broadcastRes :: broadcast_response
  txPolls :: "nat \<Rightarrow> tx_poll"
  elapsed :: int  \<comment> \<open>\<^verbatim>\<open>Date.now() - startTime\<close> at the pacing statement\<close>

subsection \<open>The chain client\<close>

definition queryAccount :: "account_response \<Rightarrow> thrown + account" where
  "queryAccount res =
     (case res of
        AccountRequestFailed \<Rightarrow> Inl RequestFailed
      | AccountNoValue \<Rightarrow> Inl TypeError
      | AccountValue (JString a) (JString s) \<Rightarrow> Inr \<lparr>account_number = a, sequence = s\<rparr>
      | AccountValue _ _ \<Rightarrow> Inl (Error ''Failed to fetch account number and sequence''))"

function waitTx_from :: "nat \<Rightarrow> (nat \<Rightarrow> tx_poll) \<Rightarrow> thrown + tx_query_data option" where
  "waitTx_from t polls =
     (if t < secTimeout then
        (case polls t of
           TxNoResponse \<Rightarrow> Inl TypeError
         | TxStatus _ \<Rightarrow> waitTx_from (t + 1) polls
         | TxData txQueryData \<Rightarrow> Inr (Some txQueryData))
      else Inr None)"
  by pat_completeness auto
termination
  by (relation "measure (\<lambda>(t, polls). secTimeout - t)") auto

declare waitTx_from.simps [simp del]

definition waitTx :: "(nat \<Rightarrow> tx_poll) \<Rightarrow> thrown + tx_query_data option" where
  "waitTx polls = waitTx_from 0 polls"

subsection \<open>The price aggregator\<close>

text \<open>
  \<^verbatim>\<open>Bluebird.some(promises, 1)\<close> resolves with the one-element array of the first promise
  to fulfil and rejects when none does.
\<close>

fun some1 :: "settlement list \<Rightarrow> price_response list option" where
  "some1 [] = None"
| "some1 (Rejected # rest) = some1 rest"
| "some1 (Fulfilled d # rest) = Some [d]"

definition accepted :: "int \<Rightarrow> price_response \<Rightarrow> bool" where
  "accepted t d =
     (if created_at d = NotAString \<or> prices d = None then False
      else if (case created_at d of Timestamp c \<Rightarrow> t - c > 30 * 1000 | _ \<Rightarrow> False) then False
      else True)"

definition getPrices :: "int \<Rightarrow> settlement list \<Rightarrow> thrown + price_obs list" where
  "getPrices t sources =
     (case some1 sources of
        None \<Rightarrow> Inl RequestFailed
      | Some results \<Rightarrow>
          (case filter (accepted t) results of
             [] \<Rightarrow> Inl (Error ''could not fetch any price'')
           | d # _ \<Rightarrow> (case prices d of None \<Rightarrow> Inl TypeError | Some ps \<Rightarrow> Inr ps)))"

subsection \<open>One iteration of the voting loop\<close>

definition denomArray :: "config \<Rightarrow> string list" where
  "denomArray cfg = map toLowerCase (split_str CHR '','' (denoms cfg))"

text \<open>\<^verbatim>\<open>args.validator || [voter.terraValAddress]\<close>\<close>

definition valAddrs :: "config \<Rightarrow> string list" where
  "valAddrs cfg = (case validator cfg of None \<Rightarrow> [terraValAddress cfg] | Some vs \<Rightarrow> vs)"

text \<open>
  The first \<^verbatim>\<open>forEach\<close>: a reveal for every price of the sample whose currency passes the
  filter, read from the remembered prices and salts. \<^verbatim>\<open>prevotePrices[currency].toString()\<close>
  throws when \<^verbatim>\<open>prevotePrices[currency]\<close> is \<^verbatim>\<open>undefined\<close>; an inherited member has a
  \<^verbatim>\<open>toString\<close> and does not throw.
\<close>

fun vote_loop :: "config \<Rightarrow> state \<Rightarrow> price_obs list \<Rightarrow> msg list \<Rightarrow> thrown + msg list" where
  "vote_loop cfg s [] voteMsgs = Inr voteMsgs"
| "vote_loop cfg s (p # ps) voteMsgs =
     (if toLowerCase (currency p) \<notin> set (denomArray cfg) then vote_loop cfg s ps voteMsgs
      else
        (if js_get (prevotePrices s) (currency p) = Undefined then Inl TypeError
         else
           vote_loop cfg s ps
             (voteMsgs @
              map (\<lambda>valAddr.
                     generateVoteMsg (js_get (prevotePrices s) (currency p))
                       (js_get (prevoteSalts s) (currency p))
                       (''u'' @ toLowerCase (currency p)) (terraAddress cfg) valAddr)
                (valAddrs cfg))))"

record prevote_acc =
  prevoteMsgs :: "msg list"
  priceUpdateMap :: "string \<rightharpoonup> string"
  priceUpdateSaltMap :: "string \<rightharpoonup> string"
  draws :: nat  \<comment> \<open>calls of \<^verbatim>\<open>Math.random\<close> so far\<close>

definition prevote_start :: prevote_acc where
  "prevote_start =
     \<lparr>prevoteMsgs = [], priceUpdateMap = Map.empty, priceUpdateSaltMap = Map.empty, draws = 0\<rparr>"

text \<open>The second \<^verbatim>\<open>forEach\<close>: a fresh salt and a prevote for every price that passes the filter.\<close>

fun prevote_loop ::
  "config \<Rightarrow> (nat \<Rightarrow> string) \<Rightarrow> price_obs list \<Rightarrow> prevote_acc \<Rightarrow> prevote_acc" where
  "prevote_loop cfg rnd [] acc = acc"
| "prevote_loop cfg rnd (p # ps) acc =
     (if toLowerCase (currency p) \<notin> set (denomArray cfg) then prevote_loop cfg rnd ps acc
      else
        (let saltMap = js_set (priceUpdateSaltMap acc) (currency p) (rnd (draws acc));
             denom = ''u'' @ toLowerCase (currency p)
         in prevote_loop cfg rnd ps
              \<lparr>prevoteMsgs =
                 prevoteMsgs acc @
                 map (\<lambda>valAddr.
                        generatePrevoteMsg
                          (generateVoteHash (js_get saltMap (currency p)) (price p) denom valAddr)
                          denom (terraAddress cfg) valAddr)
                   (valAddrs cfg),
               priceUpdateMap = js_set (priceUpdateMap acc) (currency p) (price p),
               priceUpdateSaltMap = saltMap,
               draws = Suc (draws acc)\<rparr>))"

text \<open>
  Binary64 arithmetic, as far as \<^verbatim>\<open>Math.ceil(gas * 0.015)\<close> needs it. A positive rational \<open>x\<close>
  with \<open>2 ^ e \<le> x < 2 ^ (e + 1)\<close> is rounded to the nearest multiple of \<open>2 ^ (e - 52)\<close>,
  ties to the even multiple. Overflow and subnormal numbers do not occur for the values
  the loop computes and are left out.
\<close>

definition round_half_even :: "rat \<Rightarrow> int" where
  "round_half_even q =
     (let f = \<lfloor>q\<rfloor>; r = q - of_int f
      in if r < 1 / 2 then f else if 1 / 2 < r then f + 1 else if even f then f else f + 1)"

definition exponent :: "rat \<Rightarrow> int" where
  "exponent x = (if 1 \<le> x then bitlen \<lfloor>x\<rfloor> - 1 else - bitlen (\<lceil>1 / x\<rceil> - 1))"

definition pow2 :: "int \<Rightarrow> rat" where
  "pow2 e = (if 0 \<le> e then 2 ^ nat e else 1 / 2 ^ nat (- e))"

definition to_double :: "rat \<Rightarrow> rat" where
  "to_double x =
     (let ulp = pow2 (exponent x - 52) in of_int (round_half_even (x / ulp)) * ulp)"

text \<open>
  \<^verbatim>\<open>Math.ceil(gas * 0.015)\<close>: the literal is the double nearest to \<open>15 / 1000\<close>, the product
  is rounded once more.
\<close>

definition fee_amount :: "int \<Rightarrow> int" where
  "fee_amount g = \<lceil>to_double (of_int g * to_double (15 / 1000))\<rceil>"

datatype ending =
  Threw thrown
| NoMsgs
| FailedToBroadcast
| FailedToFind
| Recorded tx_query_data

record body_result =
  next_state :: state
  posted :: "broadcast_req option"  \<comment> \<open>the body handed to \<^verbatim>\<open>ax.post\<close>, if the iteration got there\<close>
  ending :: ending

definition leave :: "state \<Rightarrow> broadcast_req option \<Rightarrow> ending \<Rightarrow> body_result" where
  "leave s req e = \<lparr>next_state = s, posted = req, ending = e\<rparr>"

text \<open>Lines 310 to 353: fee, signature, broadcast, confirmation, and the update of the memory.\<close>

definition send :: "config \<Rightarrow> tick_env \<Rightarrow> state \<Rightarrow> prevote_acc \<Rightarrow> msg list \<Rightarrow> body_result" where
  "send cfg env s acc ms =
     (let g = 50000 + int (length ms) * 7500;
          fees = \<lparr>amount = fee_amount g, fee_denom = ''ukrw'', gas = g\<rparr>;
          stdTx = \<lparr>msgs = ms, fee = fees, memo = ''Voting from terra feeder''\<rparr>
      in case signRes env of
           None \<Rightarrow> leave s None (Threw SignFailed)
         | Some sig \<Rightarrow>
             (let broadcastReq = \<lparr>tx = stdTx, signature = sig, mode = ''sync''\<rparr>
              in case broadcastRes env of
                   PostNoResponse \<Rightarrow> leave s (Some broadcastReq) (Threw TypeError)
                 | PostRejected \<Rightarrow> leave s (Some broadcastReq) FailedToBroadcast
                 | PostData None \<Rightarrow> leave s (Some broadcastReq) FailedToBroadcast
                 | PostData (Some data) \<Rightarrow>
                     if truthy (code data) then leave s (Some broadcastReq) FailedToBroadcast
                     else
                       (case waitTx (txPolls env) of
                          Inl e \<Rightarrow> leave s (Some broadcastReq) (Threw e)
                        | Inr None \<Rightarrow> leave s (Some broadcastReq) FailedToFind
                        | Inr (Some txQueryData) \<Rightarrow>
                            if truthy (tx_code txQueryData)
                            then leave s (Some broadcastReq) FailedToFind
                            else
                              leave
                                \<lparr>prevotePrices =
                                   object_assign (prevotePrices s) (priceUpdateMap acc),
                                 prevoteSalts =
                                   object_assign (prevoteSalts s) (priceUpdateSaltMap acc),
                                 prevotePeriod =
                                   Some (height txQueryData div oracleVotePeriod cfg)\<rparr>
                                (Some broadcastReq) (Recorded txQueryData))))"

text \<open>\<^verbatim>\<open>prevotePeriod && votePeriod - prevotePeriod === 1\<close>\<close>

definition reveal_due :: "int option \<Rightarrow> int \<Rightarrow> bool" where
  "reveal_due pp votePeriod =
     (case pp of None \<Rightarrow> False | Some n \<Rightarrow> n \<noteq> 0 \<and> votePeriod - n = 1)"

text \<open>Lines 251 to 353, once the gate has let the iteration through.\<close>

definition act :: "config \<Rightarrow> tick_env \<Rightarrow> state \<Rightarrow> int \<Rightarrow> body_result" where
  "act cfg env s votePeriod =
     (case getPrices (now env) (settled env) of
        Inl err \<Rightarrow> leave s None (Threw skip)
      | Inr ps \<Rightarrow>
          (case queryAccount (accountRes env) of
             Inl err \<Rightarrow> leave s None (Threw skip)
           | Inr account \<Rightarrow>
               (case (if reveal_due (prevotePeriod s) votePeriod then vote_loop cfg s ps []
                      else Inr []) of
                  Inl e \<Rightarrow> leave s None (Threw e)
                | Inr voteMsgs \<Rightarrow>
                    (let acc = prevote_loop cfg (mathRandom env) ps prevote_start;
                         ms = voteMsgs @ prevoteMsgs acc
                     in if ms = [] then leave s None NoMsgs else send cfg env s acc ms))))"

text \<open>The body of the \<^verbatim>\<open>try\<close> block.\<close>

definition try_body :: "config \<Rightarrow> tick_env \<Rightarrow> state \<Rightarrow> body_result" where
  "try_body cfg env s =
     (case latestBlock env of
        BlockRequestFailed \<Rightarrow> leave s None (Threw RequestFailed)
      | BlockMalformed \<Rightarrow> leave s None (Threw TypeError)
      | BlockHeight currentBlockHeight \<Rightarrow>
          (let votePeriod = currentBlockHeight div oracleVotePeriod cfg;
               indexInVotePeriod = js_rem currentBlockHeight (oracleVotePeriod cfg)
           in if indexInVotePeriod < oracleVotePeriod cfg - 3 \<or>
                 (truthy (prevotePeriod s) \<and> prevotePeriod s = Some votePeriod)
              then leave s None (Threw skip)
              else act cfg env s votePeriod))"

text \<open>
  The \<^verbatim>\<open>catch\<close> block and the pacing: an exception other than \<^verbatim>\<open>'skip'\<close> restarts the loop
  at once (\<^verbatim>\<open>continue\<close>); in every other case the loop sleeps
  \<^verbatim>\<open>Math.max(5000, 6000 - (Date.now() - startTime))\<close> milliseconds.
\<close>

record tick_result = body_result +
  pause :: "int option"  \<comment> \<open>\<open>None\<close>: no sleep before the next iteration\<close>

definition pacing :: "tick_env \<Rightarrow> ending \<Rightarrow> int option" where
  "pacing env e =
     (case e of
        Threw x \<Rightarrow> if x \<noteq> skip then None else Some (max 5000 (6000 - elapsed env))
      | _ \<Rightarrow> Some (max 5000 (6000 - elapsed env)))"

definition iteration :: "config \<Rightarrow> tick_env \<Rightarrow> state \<Rightarrow> tick_result" where
  "iteration cfg env s =
     (let r = try_body cfg env s
      in \<lparr>next_state = next_state r, posted = posted r, ending = ending r,
          pause = pacing env (ending r)\<rparr>)"

definition initial :: state where
  "initial = \<lparr>prevotePrices = Map.empty, prevoteSalts = Map.empty, prevotePeriod = None\<rparr>"

text \<open>A finite prefix of the loop: one environment for each iteration.\<close>

fun run :: "config \<Rightarrow> state \<Rightarrow> tick_env list \<Rightarrow> tick_result list" where
  "run cfg s [] = []"
| "run cfg s (env # envs) =
     (let r = iteration cfg env s in r # run cfg (next_state r) envs)"

subsection \<open>Observations used in the statements\<close>

definition in_filter :: "config \<Rightarrow> price_obs \<Rightarrow> bool" where
  "in_filter cfg p = (toLowerCase (currency p) \<in> set (denomArray cfg))"

fun is_prevote :: "msg \<Rightarrow> bool" where
  "is_prevote (generatePrevoteMsg h d f v) = True"
| "is_prevote (generateVoteMsg r sl d f v) = False"

fun msg_denom :: "msg \<Rightarrow> string" where
  "msg_denom (generatePrevoteMsg h d f v) = d"
| "msg_denom (generateVoteMsg r sl d f v) = d"

fun msg_validator :: "msg \<Rightarrow> string" where
  "msg_validator (generatePrevoteMsg h d f v) = v"
| "msg_validator (generateVoteMsg r sl d f v) = v"

text \<open>
  The broadcast step fails: \<^verbatim>\<open>ax.post\<close> rejects, or the answer is empty or carries a
  non-zero \<^verbatim>\<open>code\<close>. The confirmation step fails: \<^verbatim>\<open>waitTx\<close> throws, finds nothing in
  its 45 polls, or finds a transaction with a non-zero \<^verbatim>\<open>code\<close>.
\<close>

definition broadcast_failed :: "broadcast_response \<Rightarrow> bool" where
  "broadcast_failed b = (case b of PostData (Some data) \<Rightarrow> truthy (code data) | _ \<Rightarrow> True)"

definition confirm_failed :: "thrown + tx_query_data option \<Rightarrow> bool" where
  "confirm_failed w = (case w of Inr (Some d) \<Rightarrow> truthy (tx_code d) | _ \<Rightarrow> True)"




subsection \<open>A feeder and its ticks, for the concrete runs\<close>

definition feeder :: config where
  "feeder =
     \<lparr>denoms = ''krw,usd'', validator = None, terraAddress = ''terra1feeder'',
      terraValAddress = ''terravaloper1'', oracleVotePeriod = 5\<rparr>"

definition krw :: "string \<Rightarrow> price_obs" where
  "krw p = \<lparr>currency = ''krw'', price = p\<rparr>"

definition usd :: "string \<Rightarrow> price_obs" where
  "usd p = \<lparr>currency = ''usd'', price = p\<rparr>"

text \<open>
  A tick in which everything outside answers well: the block at height \<open>h\<close>, one source
  with a sample ten seconds old, an account, and a transaction that two polls do not find
  and the third finds in the block at height \<open>included\<close>.
\<close>

definition tick_at :: "int \<Rightarrow> price_obs list \<Rightarrow> int \<Rightarrow> tick_env" where
  "tick_at h ps included =
     \<lparr>latestBlock = BlockHeight h, now = 100000,
      settled = [Fulfilled \<lparr>created_at = Timestamp 90000, prices = Some ps\<rparr>],
      accountRes = AccountValue (JString ''7'') (JString ''3''),
      mathRandom = (\<lambda>k. if k = 0 then ''a1b2'' else ''c3d4''),
      signRes = Some ''sig'',
      broadcastRes = PostData (Some \<lparr>txhash = ''F00D'', code = None\<rparr>),
      txPolls = (\<lambda>t. if t < 2 then TxStatus 404
                      else TxData \<lparr>tx_code = None, height = included\<rparr>),
      elapsed = 3000\<rparr>"

text \<open>The memory after a confirmed prevote of both currencies in period 19.\<close>

definition memory19 :: state where
  "memory19 =
     \<lparr>prevotePrices = [''krw'' \<mapsto> ''1180.5'', ''usd'' \<mapsto> ''1.02''],
      prevoteSalts = [''krw'' \<mapsto> ''a1b2'', ''usd'' \<mapsto> ''c3d4''],
      prevotePeriod = Some 19\<rparr>"

section \<open>Properties\<close>

subsection \<open>Evaluation and selectors\<close>

text \<open>The lower-case letters, for the evaluation of \<open>lower_char\<close>.\<close>

lemma char_of_lower_case:
  "char_of (97::nat) = CHR ''a''"
  "char_of (98::nat) = CHR ''b''"
  "char_of (99::nat) = CHR ''c''"
  "char_of (100::nat) = CHR ''d''"
  "char_of (101::nat) = CHR ''e''"
  "char_of (102::nat) = CHR ''f''"
  "char_of (103::nat) = CHR ''g''"
  "char_of (104::nat) = CHR ''h''"
  "char_of (105::nat) = CHR ''i''"
  "char_of (106::nat) = CHR ''j''"
  "char_of (107::nat) = CHR ''k''"
  "char_of (108::nat) = CHR ''l''"
  "char_of (109::nat) = CHR ''m''"
  "char_of (110::nat) = CHR ''n''"
  "char_of (111::nat) = CHR ''o''"
  "char_of (112::nat) = CHR ''p''"
  "char_of (113::nat) = CHR ''q''"
  "char_of (114::nat) = CHR ''r''"
  "char_of (115::nat) = CHR ''s''"
  "char_of (116::nat) = CHR ''t''"
  "char_of (117::nat) = CHR ''u''"
  "char_of (118::nat) = CHR ''v''"
  "char_of (119::nat) = CHR ''w''"
  "char_of (120::nat) = CHR ''x''"
  "char_of (121::nat) = CHR ''y''"
  "char_of (122::nat) = CHR ''z''"
  by code_simp+

lemmas loop_defs =
  iteration_def try_body_def act_def send_def leave_def pacing_def Let_def js_rem_def
  truthy_def reveal_due_def getPrices_def accepted_def queryAccount_def prevote_start_def
  denomArray_def toLowerCase_def lower_char_def valAddrs_def waitTx_def secTimeout_def
  js_get_def js_set_def object_assign_def object_prototype_members_def char_of_lower_case

lemmas run_defs = feeder_def tick_at_def krw_def usd_def initial_def memory19_def

lemma leave_sel [simp]:
  "next_state (leave s req e) = s"
  "posted (leave s req e) = req"
  "ending (leave s req e) = e"
  by (simp_all add: leave_def)

lemma iteration_sel [simp]:
  "next_state (iteration cfg env s) = next_state (try_body cfg env s)"
  "posted (iteration cfg env s) = posted (try_body cfg env s)"
  "ending (iteration cfg env s) = ending (try_body cfg env s)"
  "pause (iteration cfg env s) = pacing env (ending (try_body cfg env s))"
  by (simp_all add: iteration_def Let_def)

subsection \<open>The polling loop\<close>

lemma waitTx_from_timeout:
  "\<forall>k. t \<le> k \<and> k < secTimeout \<longrightarrow> (\<exists>c. polls k = TxStatus c) \<Longrightarrow>
   waitTx_from t polls = Inr None"
proof (induction t polls rule: waitTx_from.induct)
  case (1 t polls)
  show ?case
  proof (cases "t < secTimeout")
    case True
    with "1.prems" obtain c where c: "polls t = TxStatus c" by auto
    have "waitTx_from (t + 1) polls = Inr None"
      using "1.IH"[OF True c] "1.prems" by auto
    with True c show ?thesis by (simp add: waitTx_from.simps[of t])
  next
    case False
    then show ?thesis by (simp add: waitTx_from.simps[of t])
  qed
qed

lemma waitTx_timeout:
  "\<forall>k<secTimeout. \<exists>c. polls k = TxStatus c \<Longrightarrow> waitTx polls = Inr None"
  by (simp add: waitTx_def waitTx_from_timeout)

subsection \<open>Sending\<close>

lemma send_failed:
  "broadcast_failed (broadcastRes env) \<or> confirm_failed (waitTx (txPolls env)) \<Longrightarrow>
   next_state (send cfg env s acc ms) = s"
  by (auto simp: send_def Let_def broadcast_failed_def confirm_failed_def
      split: option.splits broadcast_response.splits sum.splits)

lemma act_failed:
  "broadcast_failed (broadcastRes env) \<or> confirm_failed (waitTx (txPolls env)) \<Longrightarrow>
   next_state (act cfg env s vp) = s"
  by (simp add: act_def Let_def send_failed split: sum.splits)

lemma try_body_failed:
  "broadcast_failed (broadcastRes env) \<or> confirm_failed (waitTx (txPolls env)) \<Longrightarrow>
   next_state (try_body cfg env s) = s"
  by (simp add: try_body_def Let_def act_failed split: block_response.splits)

lemma posted_sendD:
  assumes "posted (send cfg env s acc ms) = Some req"
  shows "\<exists>sig. signRes env = Some sig \<and>
     req = \<lparr>tx = \<lparr>msgs = ms,
                  fee = \<lparr>amount = fee_amount (50000 + int (length ms) * 7500),
                         fee_denom = ''ukrw'',
                         gas = 50000 + int (length ms) * 7500\<rparr>,
                  memo = ''Voting from terra feeder''\<rparr>,
           signature = sig, mode = ''sync''\<rparr>"
  using assms
  by (auto simp: send_def Let_def
      split: option.splits broadcast_response.splits sum.splits if_splits)

lemma send_recorded:
  assumes "posted (send cfg env s acc ms) = Some req"
    and "broadcastRes env = PostData (Some data)" and "\<not> truthy (code data)"
    and "waitTx (txPolls env) = Inr (Some d)" and "\<not> truthy (tx_code d)"
  shows "next_state (send cfg env s acc ms) =
     \<lparr>prevotePrices = object_assign (prevotePrices s) (priceUpdateMap acc),
      prevoteSalts = object_assign (prevoteSalts s) (priceUpdateSaltMap acc),
      prevotePeriod = Some (height d div oracleVotePeriod cfg)\<rparr>"
    and "ending (send cfg env s acc ms) = Recorded d"
  using assms by (auto simp: send_def Let_def split: option.splits)

text \<open>What an iteration that reached \<^verbatim>\<open>ax.post\<close> went through.\<close>

lemma posted_try_bodyD:
  assumes "posted (try_body cfg env s) = Some req"
  obtains h ps a voteMsgs where
    "latestBlock env = BlockHeight h"
    "\<not> js_rem h (oracleVotePeriod cfg) < oracleVotePeriod cfg - 3"
    "\<not> (truthy (prevotePeriod s) \<and> prevotePeriod s = Some (h div oracleVotePeriod cfg))"
    "getPrices (now env) (settled env) = Inr ps"
    "queryAccount (accountRes env) = Inr a"
    "(if reveal_due (prevotePeriod s) (h div oracleVotePeriod cfg)
      then vote_loop cfg s ps [] else Inr []) = Inr voteMsgs"
    "voteMsgs @ prevoteMsgs (prevote_loop cfg (mathRandom env) ps prevote_start) \<noteq> []"
    "try_body cfg env s =
       send cfg env s (prevote_loop cfg (mathRandom env) ps prevote_start)
         (voteMsgs @ prevoteMsgs (prevote_loop cfg (mathRandom env) ps prevote_start))"
proof -
  from assms obtain h where h: "latestBlock env = BlockHeight h"
    by (cases "latestBlock env") (simp_all add: try_body_def)
  let ?vp = "h div oracleVotePeriod cfg"
  from assms h have gate:
    "\<not> (js_rem h (oracleVotePeriod cfg) < oracleVotePeriod cfg - 3 \<or>
        (truthy (prevotePeriod s) \<and> prevotePeriod s = Some ?vp))"
    by (auto simp: try_body_def Let_def split: if_splits)
  with h have tb: "try_body cfg env s = act cfg env s ?vp"
    by (auto simp: try_body_def Let_def)
  from assms tb obtain ps where ps: "getPrices (now env) (settled env) = Inr ps"
    by (cases "getPrices (now env) (settled env)") (simp_all add: act_def)
  from assms tb ps obtain a where a: "queryAccount (accountRes env) = Inr a"
    by (cases "queryAccount (accountRes env)") (simp_all add: act_def)
  let ?votes = "if reveal_due (prevotePeriod s) ?vp then vote_loop cfg s ps [] else Inr []"
  from assms tb ps a obtain voteMsgs where v: "?votes = Inr voteMsgs"
    by (cases ?votes) (simp_all add: act_def)
  let ?acc = "prevote_loop cfg (mathRandom env) ps prevote_start"
  from assms tb ps a v have ne: "voteMsgs @ prevoteMsgs ?acc \<noteq> []"
    by (auto simp: act_def Let_def split: if_splits)
  with tb ps a v have "try_body cfg env s = send cfg env s ?acc (voteMsgs @ prevoteMsgs ?acc)"
    by (auto simp: act_def Let_def)
  with h gate ps a v ne show ?thesis by (intro that[of h ps a voteMsgs]) auto
qed

subsection \<open>Binary64 rounding of the fee\<close>

lemma double_0015: "to_double (15 / 1000) = 8646911284551352 / 2 ^ 59"
  by code_simp

lemma round_half_even_ge:
  assumes "of_int a \<le> q"
  shows "a \<le> round_half_even q"
proof -
  from assms have "a \<le> \<lfloor>q\<rfloor>" by (simp add: le_floor_iff)
  then show ?thesis by (auto simp: round_half_even_def Let_def)
qed

lemma round_half_even_le:
  assumes "q \<le> of_int b"
  shows "round_half_even q \<le> b"
proof (cases "q = of_int b")
  case True
  then show ?thesis by (simp add: round_half_even_def Let_def)
next
  case False
  with assms have "q < of_int b" by simp
  then have "\<lfloor>q\<rfloor> < b" by (simp add: floor_less_iff)
  then show ?thesis by (auto simp: round_half_even_def Let_def)
qed

lemma pow2_ulp:
  assumes "e \<le> 50"
  shows "\<exists>j. pow2 (e - 52) = 1 / (4 * 2 ^ j)"
proof -
  have "nat (52 - e) = Suc (Suc (nat (50 - e)))" using assms by simp
  then have "(2::rat) ^ nat (52 - e) = 4 * 2 ^ nat (50 - e)" by simp
  moreover have "pow2 (e - 52) = 1 / 2 ^ nat (52 - e)" using assms by (simp add: pow2_def)
  ultimately show ?thesis by auto
qed

lemma exponent_le:
  assumes "1 \<le> x" "x < 2 ^ 51"
  shows "exponent x \<le> 50"
proof -
  have "\<lfloor>x\<rfloor> < 2 ^ 51" using assms(2) by (simp add: floor_less_iff)
  then have "bitlen \<lfloor>x\<rfloor> \<le> 51" by (simp add: bitlen_le_iff_power)
  then show ?thesis using assms(1) by (simp add: exponent_def)
qed

text \<open>Quarters are doubles below \<open>2 ^ 51\<close>, so rounding cannot cross one.\<close>

lemma to_double_between:
  assumes x: "1 \<le> x" "x < 2 ^ 51"
    and lo: "of_int a / 4 \<le> x" and hi: "x \<le> of_int b / 4"
  shows "of_int a / 4 \<le> to_double x \<and> to_double x \<le> of_int b / 4"
proof -
  obtain j where ulp: "pow2 (exponent x - 52) = 1 / (4 * 2 ^ j)"
    using pow2_ulp[OF exponent_le[OF x]] by blast
  let ?q = "x * (4 * 2 ^ j)"
  have td: "to_double x = of_int (round_half_even ?q) / (4 * 2 ^ j)"
    by (simp add: to_double_def Let_def ulp)
  have "of_int (a * 2 ^ j) \<le> ?q"
  proof -
    have "of_int a / 4 * (4 * 2 ^ j) \<le> x * (4 * (2::rat) ^ j)"
      using lo by (intro mult_right_mono) simp_all
    then show ?thesis by simp
  qed
  then have 1: "a * 2 ^ j \<le> round_half_even ?q" by (rule round_half_even_ge)
  have "?q \<le> of_int (b * 2 ^ j)"
  proof -
    have "x * (4 * (2::rat) ^ j) \<le> of_int b / 4 * (4 * 2 ^ j)"
      using hi by (intro mult_right_mono) simp_all
    then show ?thesis by simp
  qed
  then have 2: "round_half_even ?q \<le> b * 2 ^ j" by (rule round_half_even_le)
  have "of_int a / 4 = (of_int (a * 2 ^ j) :: rat) / (4 * 2 ^ j)" by simp
  also have "\<dots> \<le> of_int (round_half_even ?q) / (4 * 2 ^ j)"
    using 1 by (intro divide_right_mono) (simp_all only: of_int_le_iff, simp)
  finally have A: "of_int a / 4 \<le> to_double x" by (simp only: td)
  have "of_int (round_half_even ?q) / (4 * 2 ^ j) \<le> (of_int (b * 2 ^ j) :: rat) / (4 * 2 ^ j)"
    using 2 by (intro divide_right_mono) (simp_all only: of_int_le_iff, simp)
  also have "\<dots> = of_int b / 4" by simp
  finally have B: "to_double x \<le> of_int b / 4" by (simp only: td)
  from A B show ?thesis ..
qed

text \<open>
  For every gas value \<open>2500 * (20 + m)\<close> the loop can compute, the fee in binary64 is the
  ceiling of the exact product.
\<close>

lemma fee_amount_exact:
  assumes "0 \<le> m" "m < 2 ^ 40"
  shows "fee_amount (2500 * (20 + m)) = \<lceil>of_int (2500 * (20 + m)) * (15 / 1000 :: rat)\<rceil>"
proof -
  let ?g = "2500 * (20 + m)"
  let ?c = "8646911284551352 / 2 ^ 59 :: rat"
  let ?x = "of_int ?g * ?c"
  let ?k = "75 * (20 + m)"
  have T: "of_int ?g * (15 / 1000 :: rat) = of_int ?k / 2" by simp
  define r :: rat where "r = of_int m"
  have r0: "0 \<le> r" using assms(1) by (simp add: r_def)
  have "r < of_int (2 ^ 40)" unfolding r_def using assms(2) by (simp only: of_int_less_iff)
  then have r1: "r < 1099511627776" by simp
  have xr: "?x = (50000 + 2500 * r) * 8646911284551352 / 576460752303423488"
    by (simp add: r_def)
  have kr: "(of_int ?k :: rat) = 1500 + 75 * r"
    by (simp add: r_def)
  have x1: "1 \<le> ?x" unfolding xr using r0 by simp
  have x2: "?x < 2 ^ 51" unfolding xr using r1 by simp
  have lo: "of_int (2 * ?k - 1) / 4 \<le> ?x"
  proof -
    have "(2 * (1500 + 75 * r) - 1) / 4
          \<le> (50000 + 2500 * r) * 8646911284551352 / 576460752303423488"
      using r0 r1 by simp
    then show ?thesis unfolding xr by (simp add: kr r_def)
  qed
  have hi: "?x \<le> of_int (2 * ?k) / 4"
  proof -
    have "(50000 + 2500 * r) * 8646911284551352 / 576460752303423488
          \<le> (2 * (1500 + 75 * r)) / 4"
      using r0 by simp
    then show ?thesis unfolding xr by (simp add: kr r_def)
  qed
  from to_double_between[OF x1 x2 lo hi]
  have b: "of_int (2 * ?k - 1) / 4 \<le> to_double ?x" "to_double ?x \<le> of_int (2 * ?k) / 4"
    by blast+
  have "\<lceil>to_double ?x\<rceil> = \<lceil>(of_int ?k :: rat) / 2\<rceil>"
  proof (cases "even m")
    case True
    then obtain h where h: "m = 2 * h" by (elim evenE)
    have "\<lceil>to_double ?x\<rceil> = 75 * (10 + h)"
      using b h by (intro ceiling_unique) simp_all
    moreover have "\<lceil>(of_int ?k :: rat) / 2\<rceil> = 75 * (10 + h)"
      using h by (intro ceiling_unique) simp_all
    ultimately show ?thesis by simp
  next
    case False
    then obtain h where h: "m = 2 * h + 1" by (elim oddE)
    have "\<lceil>to_double ?x\<rceil> = 75 * (10 + h) + 38"
      using b h by (intro ceiling_unique) simp_all
    moreover have "\<lceil>(of_int ?k :: rat) / 2\<rceil> = 75 * (10 + h) + 38"
      using h by (intro ceiling_unique) simp_all
    ultimately show ?thesis by simp
  qed
  then show ?thesis by (simp only: fee_amount_def double_0015 T)
qed

subsection \<open>The aggregator\<close>

lemma some1_replicate: "some1 (replicate n Rejected @ Fulfilled d # rest) = Some [d]"
  by (induction n) simp_all

lemma some1_SomeD:
  "some1 sources = Some ds \<Longrightarrow>
   \<exists>n d rest. sources = replicate n Rejected @ Fulfilled d # rest \<and> ds = [d]"
proof (induction sources rule: some1.induct)
  case 1
  then show ?case by simp
next
  case (2 rest)
  then obtain n d rest' where "rest = replicate n Rejected @ Fulfilled d # rest'" "ds = [d]"
    by auto
  then have "Rejected # rest = replicate (Suc n) Rejected @ Fulfilled d # rest' \<and> ds = [d]"
    by simp
  then show ?case by blast
next
  case (3 d rest)
  then have "Fulfilled d # rest = replicate 0 Rejected @ Fulfilled d # rest \<and> ds = [d]"
    by simp
  then show ?case by blast
qed

lemma getPrices_InrD:
  assumes "getPrices t sources = Inr ps"
  shows "\<exists>n d rest. sources = replicate n Rejected @ Fulfilled d # rest \<and>
           accepted t d \<and> prices d = Some ps"
proof -
  from assms obtain ds where ds: "some1 sources = Some ds"
    by (cases "some1 sources") (simp_all add: getPrices_def)
  then obtain n d rest where src: "sources = replicate n Rejected @ Fulfilled d # rest"
    and d: "ds = [d]"
    using some1_SomeD by blast
  from assms ds d have "accepted t d \<and> prices d = Some ps"
    by (auto simp: getPrices_def split: if_splits option.splits)
  with src show ?thesis by blast
qed

lemma getPrices_InrI:
  assumes "accepted t d" and "prices d = Some ps"
  shows "getPrices t (replicate n Rejected @ Fulfilled d # rest) = Inr ps"
  using assms by (simp add: getPrices_def some1_replicate)

subsection \<open>Iterations that stop before anything is sent\<close>

lemma try_body_prices_failed:
  assumes "latestBlock env = BlockHeight h" and "getPrices (now env) (settled env) = Inl e"
  shows "try_body cfg env s = leave s None (Threw skip)"
  using assms by (simp add: try_body_def act_def Let_def)

lemma try_body_account_failed:
  assumes "latestBlock env = BlockHeight h" and "queryAccount (accountRes env) = Inl e"
  shows "try_body cfg env s = leave s None (Threw skip)"
  using assms by (simp add: try_body_def act_def Let_def split: sum.splits)

lemma try_body_no_block:
  assumes "latestBlock env = BlockRequestFailed"
  shows "try_body cfg env s = leave s None (Threw RequestFailed)"
  using assms by (simp add: try_body_def)

subsection \<open>The two message loops\<close>

lemma vote_loop_none:
  "\<forall>p\<in>set ps. \<not> in_filter cfg p \<Longrightarrow> vote_loop cfg s ps voteMsgs = Inr voteMsgs"
  by (induction ps arbitrary: voteMsgs) (simp_all add: in_filter_def)

lemma prevote_loop_none:
  "\<forall>p\<in>set ps. \<not> in_filter cfg p \<Longrightarrow> prevote_loop cfg rnd ps acc = acc"
  by (induction ps arbitrary: acc) (simp_all add: in_filter_def)


lemma prevote_loop_all_prevotes:
  "list_all is_prevote (prevoteMsgs acc) \<Longrightarrow>
   list_all is_prevote (prevoteMsgs (prevote_loop cfg rnd ps acc))"
proof (induction ps arbitrary: acc)
  case Nil
  then show ?case by simp
next
  case (Cons p ps)
  show ?case
  proof (cases "toLowerCase (currency p) \<in> set (denomArray cfg)")
    case False
    with Cons show ?thesis by simp
  next
    case True
    let ?denom = "''u'' @ toLowerCase (currency p)"
    let ?saltMap = "js_set (priceUpdateSaltMap acc) (currency p) (rnd (draws acc))"
    let ?acc = "\<lparr>prevoteMsgs =
                 prevoteMsgs acc @
                 map (\<lambda>valAddr.
                        generatePrevoteMsg
                          (generateVoteHash (js_get ?saltMap (currency p)) (price p) ?denom
                             valAddr)
                          ?denom (terraAddress cfg) valAddr)
                   (valAddrs cfg),
               priceUpdateMap = js_set (priceUpdateMap acc) (currency p) (price p),
               priceUpdateSaltMap = ?saltMap,
               draws = Suc (draws acc)\<rparr>"
    have "list_all is_prevote (prevoteMsgs ?acc)"
      using Cons.prems by (auto simp: list_all_iff)
    from Cons.IH[OF this] True show ?thesis by (simp add: Let_def)
  qed
qed

lemma prevote_loop_targets:
  "map (\<lambda>m. (msg_denom m, msg_validator m)) (prevoteMsgs (prevote_loop cfg rnd ps acc)) =
   map (\<lambda>m. (msg_denom m, msg_validator m)) (prevoteMsgs acc) @
   concat (map (\<lambda>p. map (\<lambda>v. (''u'' @ toLowerCase (currency p), v)) (valAddrs cfg))
             (filter (in_filter cfg) ps))"
  by (induction ps arbitrary: acc) (simp_all add: Let_def in_filter_def comp_def)

lemma start_all_prevotes:
  "list_all is_prevote (prevoteMsgs (prevote_loop cfg rnd ps prevote_start))"
  by (rule prevote_loop_all_prevotes) (simp add: prevote_start_def)


subsection \<open>Iterations that send\<close>

lemma posted_send:
  assumes "signRes env = Some sig"
  shows "posted (send cfg env s acc ms) =
     Some \<lparr>tx = \<lparr>msgs = ms,
                  fee = \<lparr>amount = fee_amount (50000 + int (length ms) * 7500),
                         fee_denom = ''ukrw'',
                         gas = 50000 + int (length ms) * 7500\<rparr>,
                  memo = ''Voting from terra feeder''\<rparr>,
           signature = sig, mode = ''sync''\<rparr>"
  using assms
  by (simp add: send_def Let_def split: option.splits broadcast_response.splits sum.splits)

lemma try_body_first_prevote:
  assumes "latestBlock env = BlockHeight h"
    and "\<not> js_rem h (oracleVotePeriod cfg) < oracleVotePeriod cfg - 3"
    and "getPrices (now env) (settled env) = Inr ps"
    and "queryAccount (accountRes env) = Inr a"
    and "prevoteMsgs (prevote_loop cfg (mathRandom env) ps prevote_start) \<noteq> []"
  shows "try_body cfg env initial =
     send cfg env initial (prevote_loop cfg (mathRandom env) ps prevote_start)
       (prevoteMsgs (prevote_loop cfg (mathRandom env) ps prevote_start))"
  using assms
  by (simp add: try_body_def act_def Let_def initial_def truthy_def reveal_due_def)

lemma send_posted_None:
  assumes "posted (send cfg env s acc ms) = None"
  shows "send cfg env s acc ms = leave s None (Threw SignFailed)"
proof (cases "signRes env")
  case None
  then show ?thesis by (simp add: send_def Let_def)
next
  case (Some sig)
  from posted_send[OF this] assms show ?thesis by simp
qed

lemma act_posted_None:
  assumes "posted (act cfg env s vp) = None"
  shows "next_state (act cfg env s vp) = s \<and> (\<forall>d. ending (act cfg env s vp) \<noteq> Recorded d)"
proof (cases "getPrices (now env) (settled env)")
  case (Inl e)
  then show ?thesis by (simp add: act_def)
next
  case ps: (Inr ps)
  show ?thesis
  proof (cases "queryAccount (accountRes env)")
    case (Inl e)
    with ps show ?thesis by (simp add: act_def)
  next
    case a: (Inr a)
    let ?votes = "if reveal_due (prevotePeriod s) vp then vote_loop cfg s ps [] else Inr []"
    show ?thesis
    proof (cases ?votes)
      case (Inl e)
      with ps a show ?thesis by (auto simp: act_def)
    next
      case v: (Inr voteMsgs)
      let ?acc = "prevote_loop cfg (mathRandom env) ps prevote_start"
      show ?thesis
      proof (cases "voteMsgs @ prevoteMsgs ?acc = []")
        case True
        with ps a v show ?thesis by (auto simp: act_def Let_def)
      next
        case False
        with ps a v have eq: "act cfg env s vp = send cfg env s ?acc (voteMsgs @ prevoteMsgs ?acc)"
          by (auto simp: act_def Let_def)
        with assms have "posted (send cfg env s ?acc (voteMsgs @ prevoteMsgs ?acc)) = None"
          by simp
        from send_posted_None[OF this] eq show ?thesis by simp
      qed
    qed
  qed
qed

lemma posted_None_unchanged:
  assumes "posted (try_body cfg env s) = None"
  shows "next_state (try_body cfg env s) = s \<and>
         (\<forall>d. ending (try_body cfg env s) \<noteq> Recorded d)"
proof (cases "\<exists>vp. try_body cfg env s = act cfg env s vp")
  case True
  then obtain vp where a: "try_body cfg env s = act cfg env s vp" by blast
  with assms act_posted_None[of cfg env s vp] show ?thesis by simp
next
  case False
  then show ?thesis
    by (auto simp: try_body_def Let_def split: block_response.splits if_splits)
qed

lemma try_body_filtered_out:
  assumes "\<forall>ps. getPrices (now env) (settled env) = Inr ps \<longrightarrow> (\<forall>p\<in>set ps. \<not> in_filter cfg p)"
  shows "posted (try_body cfg env s) = None"
proof (cases "posted (try_body cfg env s)")
  case None
  then show ?thesis .
next
  case (Some req)
  then obtain h ps voteMsgs where
    ps: "getPrices (now env) (settled env) = Inr ps"
    and v: "(if reveal_due (prevotePeriod s) (h div oracleVotePeriod cfg)
             then vote_loop cfg s ps [] else Inr []) = Inr voteMsgs"
    and ne: "voteMsgs @ prevoteMsgs (prevote_loop cfg (mathRandom env) ps prevote_start) \<noteq> []"
    by (rule posted_try_bodyD)
  from assms ps have out: "\<forall>p\<in>set ps. \<not> in_filter cfg p" by blast
  from v have "voteMsgs = []"
    by (simp add: vote_loop_none[OF out] split: if_splits)
  moreover have "prevoteMsgs (prevote_loop cfg (mathRandom env) ps prevote_start) = []"
    by (simp add: prevote_loop_none[OF out] prevote_start_def)
  ultimately show ?thesis using ne by simp
qed

lemma length_run: "length (run cfg s envs) = length envs"
  by (induction envs arbitrary: s) (simp_all add: Let_def)

lemma run_filtered_out:
  assumes "\<forall>env\<in>set envs. \<forall>ps. getPrices (now env) (settled env) = Inr ps \<longrightarrow>
             (\<forall>p\<in>set ps. \<not> in_filter cfg p)"
  shows "\<forall>r\<in>set (run cfg s envs).
           posted r = None \<and> next_state r = s \<and> (\<forall>d. ending r \<noteq> Recorded d)"
  using assms
proof (induction envs)
  case Nil
  then show ?case by simp
next
  case (Cons env envs)
  from Cons.prems have p: "posted (try_body cfg env s) = None"
    by (intro try_body_filtered_out) simp
  from posted_None_unchanged[OF p] p Cons show ?case
    by (simp add: Let_def)
qed

lemma denomArray_all: "denoms cfg = ''all'' \<Longrightarrow> denomArray cfg = [''all'']"
  by (simp add: denomArray_def toLowerCase_def lower_char_def)

section \<open>The claims\<close>




text \<open>
  C2. If the broadcast step fails (the request is rejected, or the answer carries a
  non-zero code) or the confirmation step fails (a non-zero code in the transaction found,
  an exception, or no transaction within the 45 polls), the prevote prices, the prevote
  salts and the last prevote period after the iteration are those before it.
\<close>

theorem memory_unchanged_on_failure:
  "broadcast_failed (broadcastRes env) \<or> confirm_failed (waitTx (txPolls env)) \<Longrightarrow>
   next_state (iteration cfg env s) = s"
  by (simp add: try_body_failed)

theorem memory_unchanged_on_failure_witness:
  "broadcast_failed (broadcastRes
      ((tick_at 103 [krw ''1190'', usd ''1.03''] 104)
         \<lparr>broadcastRes := PostData (Some \<lparr>txhash = ''F00D'', code = Some 4\<rparr>)\<rparr>)) \<and>
   next_state (iteration feeder
      ((tick_at 103 [krw ''1190'', usd ''1.03''] 104)
         \<lparr>broadcastRes := PostData (Some \<lparr>txhash = ''F00D'', code = Some 4\<rparr>)\<rparr>) memory19)
   = memory19 \<and>
   waitTx (txPolls ((tick_at 103 [krw ''1190'', usd ''1.03''] 104)
         \<lparr>txPolls := (\<lambda>t. TxStatus 404)\<rparr>)) = Inr None \<and>
   next_state (iteration feeder
      ((tick_at 103 [krw ''1190'', usd ''1.03''] 104)
         \<lparr>txPolls := (\<lambda>t. TxStatus 404)\<rparr>) memory19)
   = memory19"
proof -
  let ?rejected = "(tick_at 103 [krw ''1190'', usd ''1.03''] 104)
         \<lparr>broadcastRes := PostData (Some \<lparr>txhash = ''F00D'', code = Some 4\<rparr>)\<rparr>"
  let ?lost = "(tick_at 103 [krw ''1190'', usd ''1.03''] 104)
         \<lparr>txPolls := (\<lambda>t. TxStatus 404)\<rparr>"
  have b: "broadcast_failed (broadcastRes ?rejected)"
    by (simp add: broadcast_failed_def tick_at_def truthy_def)
  have w: "waitTx (txPolls ?lost) = Inr None"
    by (simp add: waitTx_timeout)
  then have c: "confirm_failed (waitTx (txPolls ?lost))"
    by (simp add: confirm_failed_def)
  from b w memory_unchanged_on_failure[of ?rejected feeder memory19]
    memory_unchanged_on_failure[of ?lost feeder memory19] c
  show ?thesis by blast
qed

text \<open>
  C3. Whenever a broadcast transaction is confirmed with zero code, the last prevote
  period becomes the height of the confirmed transaction divided by the vote period,
  rounded down: the period of the block that included it, whatever height was sampled at
  the start of the iteration.
\<close>

theorem prevote_period_from_inclusion_height:
  assumes "0 < oracleVotePeriod cfg"
    and "posted (iteration cfg env s) = Some req"
    and "broadcastRes env = PostData (Some data)" and "\<not> truthy (code data)"
    and "waitTx (txPolls env) = Inr (Some d)" and "\<not> truthy (tx_code d)"
  shows "prevotePeriod (next_state (iteration cfg env s)) =
         Some (height d div oracleVotePeriod cfg)"
proof -
  from assms(2) have p: "posted (try_body cfg env s) = Some req" by simp
  then obtain acc ms where tb: "try_body cfg env s = send cfg env s acc ms"
    by (rule posted_try_bodyD)
  with p have "posted (send cfg env s acc ms) = Some req" by simp
  from send_recorded(1)[OF this assms(3-6)] tb show ?thesis by simp
qed

theorem prevote_period_from_inclusion_height_witness:
  "153 div oracleVotePeriod feeder = 30 \<and>
   prevotePeriod (next_state (iteration feeder (tick_at 153 [krw ''1190''] 155) initial)) =
   Some 31"
proof -
  let ?env = "tick_at 153 [krw ''1190''] 155"
  have "posted (iteration feeder ?env initial) \<noteq> None"
    by (simp add: loop_defs run_defs waitTx_from.simps)
  then obtain req where req: "posted (iteration feeder ?env initial) = Some req" by blast
  have vp: "0 < oracleVotePeriod feeder" by (simp add: feeder_def)
  have b: "broadcastRes ?env = PostData (Some \<lparr>txhash = ''F00D'', code = None\<rparr>)"
    by (simp add: tick_at_def)
  have c: "\<not> truthy (code \<lparr>txhash = ''F00D'', code = None\<rparr>)"
    by (simp add: truthy_def)
  have w: "waitTx (txPolls ?env) = Inr (Some \<lparr>tx_code = None, height = 155\<rparr>)"
    by (simp add: tick_at_def waitTx_def waitTx_from.simps secTimeout_def)
  have z: "\<not> truthy (tx_code \<lparr>tx_code = None, height = 155\<rparr>)"
    by (simp add: truthy_def)
  from prevote_period_from_inclusion_height[OF vp req b c w z]
  show ?thesis by (simp add: feeder_def)
qed

text \<open>
  C4, as the spec has it: when some source would give a valid fresh answer, the aggregator
  returns it even if another source answers first with a stale one. The code looks at the
  first answer only: with a stale sample (45 seconds old) settling before a fresh one
  (10 seconds old), \<^verbatim>\<open>getPrices\<close> throws.
\<close>

theorem stale_first_answer_counterexample:
  "accepted 100000 \<lparr>created_at = Timestamp 90000, prices = Some [krw ''1190'']\<rparr> \<and>
   getPrices 100000
     [Fulfilled \<lparr>created_at = Timestamp 55000, prices = Some [krw ''1170'']\<rparr>,
      Fulfilled \<lparr>created_at = Timestamp 90000, prices = Some [krw ''1190'']\<rparr>]
   = Inl (Error ''could not fetch any price'')"
  by (simp add: getPrices_def accepted_def)

text \<open>
  C4, amended. The aggregator returns the prices of the first source whose request
  succeeds, exactly when that answer has a \<^verbatim>\<open>created_at\<close> that is a string and, if it
  parses as a time, is not more than 30 seconds old, and a \<^verbatim>\<open>prices\<close> field that is an
  array. In every other case (the first answer is older, \<^verbatim>\<open>created_at\<close> is no string,
  \<^verbatim>\<open>prices\<close> is no array, or no request succeeds) it throws, whatever the later sources
  would answer, and the iteration is skipped: nothing is sent, the memory is unchanged
  and the loop sleeps before the next iteration. From the empty memory at height 98 the
  stale answer settling first skips the tick, where the fresh answer alone gets a prevote
  recorded.
\<close>

theorem getPrices_first_answer:
  "(getPrices t sources = Inr ps) =
     (\<exists>n d rest. sources = replicate n Rejected @ Fulfilled d # rest \<and>
        created_at d \<noteq> NotAString \<and>
        (\<forall>c. created_at d = Timestamp c \<longrightarrow> t - c \<le> 30 * 1000) \<and>
        prices d = Some ps) \<and>
   (latestBlock env = BlockHeight h \<and> getPrices (now env) (settled env) = Inl e \<longrightarrow>
      ending (iteration cfg env s) = Threw skip \<and>
      posted (iteration cfg env s) = None \<and>
      next_state (iteration cfg env s) = s \<and>
      pause (iteration cfg env s) = Some (max 5000 (6000 - elapsed env)))"
proof -
  have crit: "accepted t d \<and> prices d = Some ps \<longleftrightarrow>
      created_at d \<noteq> NotAString \<and>
      (\<forall>c. created_at d = Timestamp c \<longrightarrow> t - c \<le> 30 * 1000) \<and> prices d = Some ps"
    for d
    by (cases "created_at d") (auto simp: accepted_def)
  have "(getPrices t sources = Inr ps) =
     (\<exists>n d rest. sources = replicate n Rejected @ Fulfilled d # rest \<and>
                  accepted t d \<and> prices d = Some ps)"
    using getPrices_InrD getPrices_InrI by blast
  then have 1: "(getPrices t sources = Inr ps) =
     (\<exists>n d rest. sources = replicate n Rejected @ Fulfilled d # rest \<and>
        created_at d \<noteq> NotAString \<and>
        (\<forall>c. created_at d = Timestamp c \<longrightarrow> t - c \<le> 30 * 1000) \<and>
        prices d = Some ps)"
    using crit by simp
  have 2: "latestBlock env = BlockHeight h \<and> getPrices (now env) (settled env) = Inl e \<longrightarrow>
      ending (iteration cfg env s) = Threw skip \<and>
      posted (iteration cfg env s) = None \<and>
      next_state (iteration cfg env s) = s \<and>
      pause (iteration cfg env s) = Some (max 5000 (6000 - elapsed env))"
    by (auto simp: try_body_prices_failed pacing_def)
  from 1 2 show ?thesis by blast
qed

theorem getPrices_first_answer_witness:
  "getPrices 100000
     [Rejected,
      Fulfilled \<lparr>created_at = Timestamp 90000, prices = Some [krw ''1190'']\<rparr>,
      Fulfilled \<lparr>created_at = Timestamp 55000, prices = Some [krw ''1170'']\<rparr>]
   = Inr [krw ''1190''] \<and>
   getPrices 100000
     [Fulfilled \<lparr>created_at = Timestamp 55000, prices = Some [krw ''1170'']\<rparr>,
      Fulfilled \<lparr>created_at = Timestamp 90000, prices = Some [krw ''1190'']\<rparr>]
   = Inl (Error ''could not fetch any price'') \<and>
   ending (iteration feeder
     ((tick_at 98 [] 98)
        \<lparr>settled :=
           [Fulfilled \<lparr>created_at = Timestamp 55000, prices = Some [krw ''1170'']\<rparr>,
            Fulfilled \<lparr>created_at = Timestamp 90000, prices = Some [krw ''1190'']\<rparr>]\<rparr>)
     initial) = Threw skip \<and>
   ending (iteration feeder
     ((tick_at 98 [] 98)
        \<lparr>settled :=
           [Fulfilled \<lparr>created_at = Timestamp 90000, prices = Some [krw ''1190'']\<rparr>]\<rparr>)
     initial) = Recorded \<lparr>tx_code = None, height = 98\<rparr>"
proof -
  let ?fresh = "\<lparr>created_at = Timestamp 90000, prices = Some [krw ''1190'']\<rparr>"
  let ?stale = "\<lparr>created_at = Timestamp 55000, prices = Some [krw ''1170'']\<rparr>"
  let ?env = "(tick_at 98 [] 98)\<lparr>settled := [Fulfilled ?stale, Fulfilled ?fresh]\<rparr>"
  let ?ok = "(tick_at 98 [] 98)\<lparr>settled := [Fulfilled ?fresh]\<rparr>"
  have "[Rejected, Fulfilled ?fresh, Fulfilled ?stale] =
          replicate 1 Rejected @ Fulfilled ?fresh # [Fulfilled ?stale] \<and>
        created_at ?fresh \<noteq> NotAString \<and>
        (\<forall>c. created_at ?fresh = Timestamp c \<longrightarrow> 100000 - c \<le> 30 * 1000) \<and>
        prices ?fresh = Some [krw ''1190'']"
    by simp
  then have 1: "getPrices 100000 [Rejected, Fulfilled ?fresh, Fulfilled ?stale] =
      Inr [krw ''1190'']"
    using getPrices_first_answer[of 100000 "[Rejected, Fulfilled ?fresh, Fulfilled ?stale]"
        "[krw ''1190'']"] by blast
  have g: "getPrices 100000 [Fulfilled ?stale, Fulfilled ?fresh] =
      Inl (Error ''could not fetch any price'')"
    by (simp add: getPrices_def accepted_def)
  then have "latestBlock ?env = BlockHeight 98 \<and>
        getPrices (now ?env) (settled ?env) = Inl (Error ''could not fetch any price'')"
    by (simp add: tick_at_def)
  then have 2: "ending (iteration feeder ?env initial) = Threw skip"
    using getPrices_first_answer[of _ _ _ ?env 98 "Error ''could not fetch any price''"
        feeder initial] by blast
  have 3: "ending (iteration feeder ?ok initial) = Recorded \<lparr>tx_code = None, height = 98\<rparr>"
    by (simp add: loop_defs run_defs waitTx_from.simps)
  from 1 g 2 3 show ?thesis by blast
qed

text \<open>
  C5, as the spec has it: every accepted answer is at most 30 seconds old and has a
  non-empty array of prices. The code checks \<^verbatim>\<open>Array.isArray\<close> only, so an empty array is
  returned to the loop; and a \<^verbatim>\<open>created_at\<close> that does not parse as a date compares as
  \<^verbatim>\<open>NaN\<close> and passes the age test.
\<close>

theorem empty_or_undated_prices_counterexample:
  "getPrices 100000 [Fulfilled \<lparr>created_at = Timestamp 90000, prices = Some []\<rparr>] = Inr [] \<and>
   getPrices 100000 [Fulfilled \<lparr>created_at = Unparseable, prices = Some [krw ''1190'']\<rparr>]
   = Inr [krw ''1190'']"
  by (simp add: getPrices_def accepted_def)

text \<open>
  C5, amended. Every answer the aggregator accepts has a string \<^verbatim>\<open>created_at\<close> which, when
  it parses as a time, is at most 30 seconds before the current time, and a \<^verbatim>\<open>prices\<close>
  field that is an array, possibly empty.
\<close>

theorem getPrices_accepts:
  assumes "getPrices t sources = Inr ps"
  shows "\<exists>d. Fulfilled d \<in> set sources \<and> prices d = Some ps \<and>
             created_at d \<noteq> NotAString \<and>
             (\<forall>c. created_at d = Timestamp c \<longrightarrow> t - c \<le> 30 * 1000)"
proof -
  from getPrices_InrD[OF assms] obtain n d rest where
    src: "sources = replicate n Rejected @ Fulfilled d # rest"
    and acc: "accepted t d" and ps: "prices d = Some ps"
    by blast
  from acc have "created_at d \<noteq> NotAString"
    by (auto simp: accepted_def split: if_splits)
  moreover from acc have "\<forall>c. created_at d = Timestamp c \<longrightarrow> t - c \<le> 30 * 1000"
    by (auto simp: accepted_def split: if_splits)
  moreover from src have "Fulfilled d \<in> set sources" by simp
  ultimately show ?thesis using ps by blast
qed

theorem getPrices_accepts_witness:
  "getPrices 100000 [Fulfilled \<lparr>created_at = Timestamp 70000, prices = Some [krw ''1190'']\<rparr>]
   = Inr [krw ''1190''] \<and>
   (\<exists>d. Fulfilled d \<in>
           set [Fulfilled \<lparr>created_at = Timestamp 70000, prices = Some [krw ''1190'']\<rparr>] \<and>
        prices d = Some [krw ''1190''] \<and> created_at d \<noteq> NotAString \<and>
        (\<forall>c. created_at d = Timestamp c \<longrightarrow> 100000 - c \<le> 30 * 1000))"
proof -
  have g: "getPrices 100000
      [Fulfilled \<lparr>created_at = Timestamp 70000, prices = Some [krw ''1190'']\<rparr>]
    = Inr [krw ''1190'']"
    by (simp add: getPrices_def accepted_def)
  from g getPrices_accepts[OF g] show ?thesis by blast
qed

text \<open>
  C6, as the spec has it: with the default \<^verbatim>\<open>--denoms all\<close> the filter list is \<^verbatim>\<open>["all"]\<close>,
  and for a price sample none of whose currencies is literally \<^verbatim>\<open>all\<close> nothing is ever
  built or sent. The membership test lower-cases the currency first: a sample with the
  currency \<^verbatim>\<open>ALL\<close>, which is not literally \<^verbatim>\<open>all\<close>, passes the filter, and a prevote for
  \<^verbatim>\<open>uall\<close> is posted and recorded.
\<close>

theorem default_filter_upper_case_counterexample:
  "denomArray (feeder\<lparr>denoms := ''all''\<rparr>) = [''all''] \<and>
   currency \<lparr>currency = ''ALL'', price = ''100''\<rparr> \<noteq> ''all'' \<and>
   map_option (msgs \<circ> tx)
     (posted (iteration (feeder\<lparr>denoms := ''all''\<rparr>)
        (tick_at 98 [\<lparr>currency = ''ALL'', price = ''100''\<rparr>] 98) initial))
   = Some [generatePrevoteMsg
             (generateVoteHash (Own ''a1b2'') ''100'' ''uall'' ''terravaloper1'')
             ''uall'' ''terra1feeder'' ''terravaloper1''] \<and>
   ending (iteration (feeder\<lparr>denoms := ''all''\<rparr>)
        (tick_at 98 [\<lparr>currency = ''ALL'', price = ''100''\<rparr>] 98) initial)
   = Recorded \<lparr>tx_code = None, height = 98\<rparr>"
  by (simp add: loop_defs run_defs waitTx_from.simps)

text \<open>
  C6, amended. With the default \<^verbatim>\<open>--denoms all\<close> the filter list is \<^verbatim>\<open>["all"]\<close>. When no
  currency of the price samples equals \<^verbatim>\<open>all\<close> after lower-casing, both loops leave every
  currency out: no vote and no prevote message is built, no iteration of the loop posts a
  transaction, and the memory stays as it was.
\<close>

theorem default_filter_sends_nothing:
  assumes "denoms cfg = ''all''"
    and "\<forall>env\<in>set envs. \<forall>ps. getPrices (now env) (settled env) = Inr ps \<longrightarrow>
           (\<forall>p\<in>set ps. toLowerCase (currency p) \<noteq> ''all'')"
  shows "denomArray cfg = [''all''] \<and>
         (\<forall>env\<in>set envs. \<forall>ps. getPrices (now env) (settled env) = Inr ps \<longrightarrow>
            vote_loop cfg s ps [] = Inr [] \<and>
            prevoteMsgs (prevote_loop cfg (mathRandom env) ps prevote_start) = []) \<and>
         (\<forall>r\<in>set (run cfg s envs).
            posted r = None \<and> next_state r = s \<and> (\<forall>d. ending r \<noteq> Recorded d))"
proof -
  have da: "denomArray cfg = [''all'']" by (rule denomArray_all[OF assms(1)])
  have out: "\<forall>env\<in>set envs. \<forall>ps. getPrices (now env) (settled env) = Inr ps \<longrightarrow>
             (\<forall>p\<in>set ps. \<not> in_filter cfg p)"
    using assms(2) by (simp add: in_filter_def da)
  have "\<forall>env\<in>set envs. \<forall>ps. getPrices (now env) (settled env) = Inr ps \<longrightarrow>
            vote_loop cfg s ps [] = Inr [] \<and>
            prevoteMsgs (prevote_loop cfg (mathRandom env) ps prevote_start) = []"
  proof (intro ballI allI impI)
    fix env ps
    assume "env \<in> set envs" "getPrices (now env) (settled env) = Inr ps"
    with out have o: "\<forall>p\<in>set ps. \<not> in_filter cfg p" by blast
    show "vote_loop cfg s ps [] = Inr [] \<and>
          prevoteMsgs (prevote_loop cfg (mathRandom env) ps prevote_start) = []"
      by (simp add: vote_loop_none[OF o] prevote_loop_none[OF o] prevote_start_def)
  qed
  with da run_filtered_out[OF out] show ?thesis by blast
qed

theorem default_filter_sends_nothing_witness:
  "map posted
     (run (feeder\<lparr>denoms := ''all''\<rparr>) initial
        [tick_at 98 [krw ''1180.5'', usd ''1.02''] 98, tick_at 103 [krw ''1190''] 103])
   = [None, None]"
proof -
  let ?cfg = "feeder\<lparr>denoms := ''all''\<rparr>"
  let ?envs = "[tick_at 98 [krw ''1180.5'', usd ''1.02''] 98, tick_at 103 [krw ''1190''] 103]"
  have d: "denoms ?cfg = ''all''" by simp
  have c: "\<forall>env\<in>set ?envs. \<forall>ps. getPrices (now env) (settled env) = Inr ps \<longrightarrow>
           (\<forall>p\<in>set ps. toLowerCase (currency p) \<noteq> ''all'')"
    by (auto simp: tick_at_def getPrices_def accepted_def krw_def usd_def toLowerCase_def
        lower_char_def)
  from default_filter_sends_nothing[OF d c, of initial]
  have "\<forall>r\<in>set (run ?cfg initial ?envs). posted r = None" by blast
  then have "map posted (run ?cfg initial ?envs) =
             map (\<lambda>r. None) (run ?cfg initial ?envs)"
    by (simp only: map_eq_conv)
  also have "\<dots> = replicate (length (run ?cfg initial ?envs)) None"
    by (simp only: map_replicate_const)
  also have "\<dots> = [None, None]" by (simp add: length_run)
  finally show ?thesis .
qed

text \<open>
  C7, as the spec has it: with a vote period of 5 and an empty memory, the tick at height
  97 (index 2) is skipped and the tick at height 98 is the first to act. The gate of the
  code skips while the index is below \<open>5 - 3 = 2\<close>, so the tick at height 97 already acts:
  it posts a prevote, which is recorded.
\<close>

theorem gate_at_height_97_counterexample:
  "js_rem 97 (oracleVotePeriod feeder) = 2 \<and>
   ending (iteration feeder (tick_at 97 [krw ''1180.5''] 98) initial)
   = Recorded \<lparr>tx_code = None, height = 98\<rparr> \<and>
   map_option (msgs \<circ> tx) (posted (iteration feeder (tick_at 97 [krw ''1180.5''] 98) initial))
   = Some [generatePrevoteMsg (generateVoteHash (Own ''a1b2'') ''1180.5'' ''ukrw'' ''terravaloper1'')
             ''ukrw'' ''terra1feeder'' ''terravaloper1'']"
  by (simp add: loop_defs run_defs waitTx_from.simps)

text \<open>
  C7, amended. With a vote period of 5 and an empty memory, a tick sampled at height 96
  (index 1) does not act: the gate fails and the tick is skipped. A tick at height 97
  (index 2) or 98 (index 3) passes the gate and, given prices, an account and a signature,
  posts one prevote message for every price of the sample that passes the filter and
  every validator, and no reveal.
\<close>

theorem phase_gate_vote_period_5:
  assumes "oracleVotePeriod cfg = 5"
  shows "(latestBlock env = BlockHeight 96 \<longrightarrow>
            ending (iteration cfg env initial) = Threw skip \<and>
            posted (iteration cfg env initial) = None) \<and>
         ((latestBlock env = BlockHeight 97 \<or> latestBlock env = BlockHeight 98) \<and>
          getPrices (now env) (settled env) = Inr ps \<and>
          queryAccount (accountRes env) = Inr a \<and> signRes env = Some sig \<and>
          filter (in_filter cfg) ps \<noteq> [] \<and> valAddrs cfg \<noteq> [] \<longrightarrow>
            (\<exists>req. posted (iteration cfg env initial) = Some req \<and>
               list_all is_prevote (msgs (tx req)) \<and>
               map (\<lambda>m. (msg_denom m, msg_validator m)) (msgs (tx req)) =
               concat (map (\<lambda>p. map (\<lambda>v. (''u'' @ toLowerCase (currency p), v)) (valAddrs cfg))
                         (filter (in_filter cfg) ps))))"
proof -
  have skip96: "latestBlock env = BlockHeight 96 \<longrightarrow>
            ending (iteration cfg env initial) = Threw skip \<and>
            posted (iteration cfg env initial) = None"
    using assms by (simp add: try_body_def Let_def js_rem_def)
  have act: "\<exists>req. posted (iteration cfg env initial) = Some req \<and>
               list_all is_prevote (msgs (tx req)) \<and>
               map (\<lambda>m. (msg_denom m, msg_validator m)) (msgs (tx req)) =
               concat (map (\<lambda>p. map (\<lambda>v. (''u'' @ toLowerCase (currency p), v)) (valAddrs cfg))
                         (filter (in_filter cfg) ps))"
    if h: "latestBlock env = BlockHeight 97 \<or> latestBlock env = BlockHeight 98"
      and ps: "getPrices (now env) (settled env) = Inr ps"
      and a: "queryAccount (accountRes env) = Inr a"
      and sig: "signRes env = Some sig"
      and ne: "filter (in_filter cfg) ps \<noteq> []" "valAddrs cfg \<noteq> []"
  proof -
    let ?acc = "prevote_loop cfg (mathRandom env) ps prevote_start"
    let ?targets = "concat (map (\<lambda>p. map (\<lambda>v. (''u'' @ toLowerCase (currency p), v))
                                    (valAddrs cfg)) (filter (in_filter cfg) ps))"
    have t: "map (\<lambda>m. (msg_denom m, msg_validator m)) (prevoteMsgs ?acc) = ?targets"
      by (simp add: prevote_loop_targets prevote_start_def)
    from ne have "?targets \<noteq> []"
      by (cases "filter (in_filter cfg) ps") simp_all
    with t have msgs_ne: "prevoteMsgs ?acc \<noteq> []" by auto
    from h obtain ht where ht: "latestBlock env = BlockHeight ht"
      "\<not> js_rem ht (oracleVotePeriod cfg) < oracleVotePeriod cfg - 3"
      using assms by (auto simp: js_rem_def)
    from try_body_first_prevote[OF ht ps a msgs_ne]
    have "posted (iteration cfg env initial) = posted (send cfg env initial ?acc (prevoteMsgs ?acc))"
      by simp
    with posted_send[OF sig] t start_all_prevotes[of cfg "mathRandom env" ps]
    show ?thesis by simp
  qed
  from skip96 act show ?thesis by blast
qed

theorem phase_gate_vote_period_5_witness:
  "ending (iteration feeder (tick_at 96 [krw ''1180.5'', usd ''1.02''] 96) initial) = Threw skip \<and>
   (\<exists>req. posted (iteration feeder (tick_at 98 [krw ''1180.5'', usd ''1.02''] 98) initial)
           = Some req \<and>
      list_all is_prevote (msgs (tx req)) \<and>
      map (\<lambda>m. (msg_denom m, msg_validator m)) (msgs (tx req)) =
      [(''ukrw'', ''terravaloper1''), (''uusd'', ''terravaloper1'')])"
proof -
  let ?ps = "[krw ''1180.5'', usd ''1.02'']"
  let ?e96 = "tick_at 96 ?ps 96"
  let ?e98 = "tick_at 98 ?ps 98"
  have vp: "oracleVotePeriod feeder = 5" by (simp add: feeder_def)
  have "latestBlock ?e96 = BlockHeight 96" by (simp add: tick_at_def)
  with phase_gate_vote_period_5[OF vp, of ?e96]
  have 1: "ending (iteration feeder ?e96 initial) = Threw skip" by blast
  have f: "filter (in_filter feeder) ?ps = ?ps"
    by (simp add: in_filter_def denomArray_def feeder_def krw_def usd_def toLowerCase_def
        lower_char_def)
  have hyp: "(latestBlock ?e98 = BlockHeight 97 \<or> latestBlock ?e98 = BlockHeight 98) \<and>
      getPrices (now ?e98) (settled ?e98) = Inr ?ps \<and>
      queryAccount (accountRes ?e98) = Inr \<lparr>account_number = ''7'', sequence = ''3''\<rparr> \<and>
      signRes ?e98 = Some ''sig'' \<and>
      filter (in_filter feeder) ?ps \<noteq> [] \<and> valAddrs feeder \<noteq> []"
    unfolding f
    by (simp add: tick_at_def getPrices_def accepted_def queryAccount_def valAddrs_def feeder_def)
  have t: "concat (map (\<lambda>p. map (\<lambda>v. (''u'' @ toLowerCase (currency p), v)) (valAddrs feeder))
                         (filter (in_filter feeder) ?ps))
           = [(''ukrw'', ''terravaloper1''), (''uusd'', ''terravaloper1'')]"
    unfolding f
    by (simp add: valAddrs_def feeder_def krw_def usd_def toLowerCase_def lower_char_def)
  from phase_gate_vote_period_5[OF vp, of ?e98 ?ps
      "\<lparr>account_number = ''7'', sequence = ''3''\<rparr>" "''sig''"] hyp
  have "\<exists>req. posted (iteration feeder ?e98 initial) = Some req \<and>
               list_all is_prevote (msgs (tx req)) \<and>
               map (\<lambda>m. (msg_denom m, msg_validator m)) (msgs (tx req)) =
               concat (map (\<lambda>p. map (\<lambda>v. (''u'' @ toLowerCase (currency p), v)) (valAddrs feeder))
                         (filter (in_filter feeder) ?ps))"
    by blast
  with 1 show ?thesis unfolding t by blast
qed

text \<open>
  C8, as the spec has it: the account query fails fatally, aborting the process, when
  \<^verbatim>\<open>account_number\<close> or \<^verbatim>\<open>sequence\<close> is missing or is no decimal integer. In the code the
  loop catches the failure and throws \<^verbatim>\<open>'skip'\<close>: after a tick whose account answer lacks
  the sequence, the next tick runs and its prevote is recorded. And the query tests
  \<^verbatim>\<open>typeof\<close> only: strings that are no decimal integers are returned as the account.
\<close>

theorem account_failure_counterexample:
  "map ending
     (run feeder initial
        [(tick_at 98 [krw ''1190''] 98)\<lparr>accountRes := AccountValue (JString ''7'') JMissing\<rparr>,
         tick_at 99 [krw ''1190''] 99])
   = [Threw skip, Recorded \<lparr>tx_code = None, height = 99\<rparr>] \<and>
   queryAccount (AccountValue (JString ''seven'') (JString ''0x3''))
   = Inr \<lparr>account_number = ''seven'', sequence = ''0x3''\<rparr>"
  by (simp add: loop_defs run_defs waitTx_from.simps)

text \<open>
  C8, amended. The account query fails when the request fails or when \<^verbatim>\<open>account_number\<close>
  or \<^verbatim>\<open>sequence\<close> is not a string, and only then; a string that is no decimal integer is
  accepted. The loop answers the failure by skipping the tick: the memory is unchanged,
  nothing is sent, the loop sleeps and goes on with the next iteration.
\<close>

theorem account_failure_skips_tick:
  "(queryAccount res = Inr \<lparr>account_number = a, sequence = q\<rparr>) =
     (res = AccountValue (JString a) (JString q)) \<and>
   (latestBlock env = BlockHeight h \<and> queryAccount (accountRes env) = Inl e \<longrightarrow>
      ending (iteration cfg env s) = Threw skip \<and>
      posted (iteration cfg env s) = None \<and>
      next_state (iteration cfg env s) = s \<and>
      pause (iteration cfg env s) = Some (max 5000 (6000 - elapsed env)) \<and>
      run cfg s (env # envs) = iteration cfg env s # run cfg s envs)"
proof -
  have "(queryAccount res = Inr \<lparr>account_number = a, sequence = q\<rparr>) =
     (res = AccountValue (JString a) (JString q))"
    by (auto simp: queryAccount_def split: account_response.splits json_field.splits)
  moreover have "latestBlock env = BlockHeight h \<and> queryAccount (accountRes env) = Inl e \<longrightarrow>
      ending (iteration cfg env s) = Threw skip \<and>
      posted (iteration cfg env s) = None \<and>
      next_state (iteration cfg env s) = s \<and>
      pause (iteration cfg env s) = Some (max 5000 (6000 - elapsed env)) \<and>
      run cfg s (env # envs) = iteration cfg env s # run cfg s envs"
    by (auto simp: try_body_account_failed pacing_def Let_def)
  ultimately show ?thesis by blast
qed

theorem account_failure_skips_tick_witness:
  "queryAccount (AccountValue (JNumber 7) (JString ''3''))
     = Inl (Error ''Failed to fetch account number and sequence'') \<and>
   ending (iteration feeder
     ((tick_at 103 [krw ''1190''] 103)\<lparr>accountRes := AccountValue (JNumber 7) (JString ''3'')\<rparr>)
     memory19) = Threw skip \<and>
   next_state (iteration feeder
     ((tick_at 103 [krw ''1190''] 103)\<lparr>accountRes := AccountValue (JNumber 7) (JString ''3'')\<rparr>)
     memory19) = memory19 \<and>
   pause (iteration feeder
     ((tick_at 103 [krw ''1190''] 103)\<lparr>accountRes := AccountValue (JNumber 7) (JString ''3'')\<rparr>)
     memory19) = Some 5000"
proof -
  let ?env = "(tick_at 103 [krw ''1190''] 103)
     \<lparr>accountRes := AccountValue (JNumber 7) (JString ''3'')\<rparr>"
  have q: "queryAccount (AccountValue (JNumber 7) (JString ''3''))
     = Inl (Error ''Failed to fetch account number and sequence'')"
    by (simp add: queryAccount_def)
  then have "latestBlock ?env = BlockHeight 103 \<and>
     queryAccount (accountRes ?env) = Inl (Error ''Failed to fetch account number and sequence'')"
    by (simp add: tick_at_def)
  from this account_failure_skips_tick[of _ _ _ ?env 103
      "Error ''Failed to fetch account number and sequence''" feeder memory19 "[]"]
  have "ending (iteration feeder ?env memory19) = Threw skip \<and>
        next_state (iteration feeder ?env memory19) = memory19 \<and>
        pause (iteration feeder ?env memory19) = Some (max 5000 (6000 - elapsed ?env))"
    by blast
  moreover have "max 5000 (6000 - elapsed ?env) = 5000" by (simp add: tick_at_def)
  ultimately show ?thesis using q by (simp del: iteration_sel)
qed

text \<open>
  C9, as the spec has it: the loop sleeps between any two consecutive iterations, also
  after an iteration that ends in an unexpected exception. The \<^verbatim>\<open>catch\<close> block restarts
  the loop at once in that case: when the block query throws, there is no sleep.
\<close>

theorem no_pause_after_exception_counterexample:
  "ending (iteration feeder ((tick_at 98 [krw ''1190''] 98)\<lparr>latestBlock := BlockRequestFailed\<rparr>) initial)
   = Threw RequestFailed \<and>
   pause (iteration feeder ((tick_at 98 [krw ''1190''] 98)\<lparr>latestBlock := BlockRequestFailed\<rparr>) initial)
   = None"
  by (simp add: try_body_no_block tick_at_def pacing_def)

text \<open>
  C9, amended. After an iteration that runs to its end or is skipped, the loop sleeps
  \<open>max 5000 (6000 - elapsed)\<close> milliseconds, \<open>elapsed\<close> being the time since the start of the
  iteration: at least 5 seconds, so that two iteration starts are at least 5 seconds
  apart, and exactly 6 seconds apart when the iteration took no more than one second.
  After an iteration that ends in an exception other than \<^verbatim>\<open>'skip'\<close> the loop does not
  sleep.
\<close>

theorem pacing_of_iteration:
  "pause (iteration cfg env s) =
     (if \<exists>x. ending (iteration cfg env s) = Threw x \<and> x \<noteq> skip then None
      else Some (max 5000 (6000 - elapsed env))) \<and>
   (pause (iteration cfg env s) = Some p \<and> 0 \<le> elapsed env \<longrightarrow>
      5000 \<le> p \<and> 5000 \<le> elapsed env + p \<and>
      (elapsed env \<le> 1000 \<longrightarrow> elapsed env + p = 6000))"
proof -
  have 1: "pause (iteration cfg env s) =
     (if \<exists>x. ending (iteration cfg env s) = Threw x \<and> x \<noteq> skip then None
      else Some (max 5000 (6000 - elapsed env)))"
    by (cases "ending (try_body cfg env s)") (auto simp: pacing_def)
  have 2: "pause (iteration cfg env s) = Some p \<and> 0 \<le> elapsed env \<longrightarrow>
      5000 \<le> p \<and> 5000 \<le> elapsed env + p \<and>
      (elapsed env \<le> 1000 \<longrightarrow> elapsed env + p = 6000)"
    by (cases "ending (try_body cfg env s)") (auto simp: pacing_def split: if_splits)
  from 1 2 show ?thesis by blast
qed

theorem pacing_of_iteration_witness:
  "ending (iteration feeder ((tick_at 96 [krw ''1190''] 96)\<lparr>elapsed := 400\<rparr>) initial)
     = Threw skip \<and>
   pause (iteration feeder ((tick_at 96 [krw ''1190''] 96)\<lparr>elapsed := 400\<rparr>) initial)
     = Some 5600 \<and>
   elapsed ((tick_at 96 [krw ''1190''] 96)\<lparr>elapsed := 400\<rparr>) + 5600 = 6000"
proof -
  let ?env = "(tick_at 96 [krw ''1190''] 96)\<lparr>elapsed := 400\<rparr>"
  have e: "ending (iteration feeder ?env initial) = Threw skip"
    by (simp add: try_body_def Let_def js_rem_def run_defs)
  then have "\<not> (\<exists>x. ending (iteration feeder ?env initial) = Threw x \<and> x \<noteq> skip)"
    by simp
  with pacing_of_iteration[of feeder ?env initial 5600]
  have "pause (iteration feeder ?env initial) = Some (max 5000 (6000 - elapsed ?env))"
    by (simp del: iteration_sel)
  moreover have "max 5000 (6000 - elapsed ?env) = 5600" "elapsed ?env = 400"
    by (simp_all add: tick_at_def)
  ultimately show ?thesis using e by (simp del: iteration_sel)
qed

text \<open>
  C10. Every assembled transaction has at least one message; with \<open>n\<close> messages its gas
  limit is \<open>50000 + 7500 * n\<close> and its fee is the ceiling of \<open>0.015\<close> times the gas, in
  \<^verbatim>\<open>ukrw\<close>. An array of JavaScript has fewer than \<open>2 ^ 32\<close> elements; within that bound
  the binary64 product rounds to the same ceiling as the exact one.
\<close>

theorem gas_and_fee_of_transaction:
  assumes "posted (iteration cfg env s) = Some req"
    and "length (msgs (tx req)) < 2 ^ 32"
  shows "1 \<le> length (msgs (tx req)) \<and>
         gas (fee (tx req)) = 50000 + 7500 * int (length (msgs (tx req))) \<and>
         amount (fee (tx req)) = \<lceil>of_int (gas (fee (tx req))) * (0.015 :: rat)\<rceil> \<and>
         fee_denom (fee (tx req)) = ''ukrw''"
proof -
  from assms(1) have p: "posted (try_body cfg env s) = Some req" by simp
  then obtain acc ms where ne: "ms \<noteq> []" and tb: "try_body cfg env s = send cfg env s acc ms"
    by (rule posted_try_bodyD)
  from p tb have "posted (send cfg env s acc ms) = Some req" by simp
  from posted_sendD[OF this] obtain sig where
    req: "req = \<lparr>tx = \<lparr>msgs = ms,
                  fee = \<lparr>amount = fee_amount (50000 + int (length ms) * 7500),
                         fee_denom = ''ukrw'',
                         gas = 50000 + int (length ms) * 7500\<rparr>,
                  memo = ''Voting from terra feeder''\<rparr>,
           signature = sig, mode = ''sync''\<rparr>"
    by blast
  define n where "n = int (length ms)"
  have n0: "0 \<le> 3 * n" by (simp add: n_def)
  have "length ms < 2 ^ 32" using assms(2) req by simp
  then have "int (length ms) < int (2 ^ 32)" by (simp only: of_nat_less_iff)
  then have "n < 4294967296" by (simp add: n_def)
  then have n1: "3 * n < 2 ^ 40" by simp
  have g: "50000 + n * 7500 = 2500 * (20 + 3 * n)" by simp
  have "fee_amount (50000 + n * 7500) = \<lceil>of_int (50000 + n * 7500) * (15 / 1000 :: rat)\<rceil>"
    unfolding g by (rule fee_amount_exact[OF n0 n1])
  then have a: "fee_amount (50000 + n * 7500) = \<lceil>of_int (50000 + n * 7500) * (0.015 :: rat)\<rceil>"
    by simp
  from ne have "1 \<le> length ms" by (cases ms) simp_all
  with a show ?thesis by (simp add: req n_def)
qed

theorem gas_and_fee_of_transaction_witness:
  "map_option (msgs \<circ> tx) (posted (iteration feeder (tick_at 98 [krw ''1180.5'', usd ''1.02''] 98) initial)) =
     Some [generatePrevoteMsg (generateVoteHash (Own ''a1b2'') ''1180.5'' ''ukrw'' ''terravaloper1'')
             ''ukrw'' ''terra1feeder'' ''terravaloper1'',
           generatePrevoteMsg (generateVoteHash (Own ''c3d4'') ''1.02'' ''uusd'' ''terravaloper1'')
             ''uusd'' ''terra1feeder'' ''terravaloper1''] \<and>
   map_option (fee \<circ> tx) (posted (iteration feeder (tick_at 98 [krw ''1180.5'', usd ''1.02''] 98) initial)) =
     Some \<lparr>amount = 975, fee_denom = ''ukrw'', gas = 65000\<rparr>"
proof -
  let ?r = "iteration feeder (tick_at 98 [krw ''1180.5'', usd ''1.02''] 98) initial"
  have m: "map_option (msgs \<circ> tx) (posted ?r) =
     Some [generatePrevoteMsg (generateVoteHash (Own ''a1b2'') ''1180.5'' ''ukrw'' ''terravaloper1'')
             ''ukrw'' ''terra1feeder'' ''terravaloper1'',
           generatePrevoteMsg (generateVoteHash (Own ''c3d4'') ''1.02'' ''uusd'' ''terravaloper1'')
             ''uusd'' ''terra1feeder'' ''terravaloper1'']"
    by (simp add: loop_defs run_defs waitTx_from.simps)
  then obtain req where req: "posted ?r = Some req" by (cases "posted ?r") simp_all
  with m have l: "length (msgs (tx req)) = 2" by simp
  then have "length (msgs (tx req)) < 2 ^ 32" by simp
  from gas_and_fee_of_transaction[OF req this] l
  have "gas (fee (tx req)) = 65000" "amount (fee (tx req)) = 975" "fee_denom (fee (tx req)) = ''ukrw''"
    by simp_all
  then have "fee (tx req) = \<lparr>amount = 975, fee_denom = ''ukrw'', gas = 65000\<rparr>"
    by (cases "fee (tx req)") simp
  with m req show ?thesis by simp
qed

end
